theory Spec2Isabelle
  imports Main
begin

section \<open>Errors and outcomes\<close>

text \<open>
  A JavaScript \<^verbatim>\<open>throw new Error(msg)\<close> is the value \<open>Inl (Error msg)\<close>. A
  \<^verbatim>\<open>TypeError\<close> raised by the runtime (for instance by calling a method on
  \<^verbatim>\<open>undefined\<close>) is \<open>Inl TypeError\<close>; its message depends on the engine and
  is left out.
\<close>

datatype error = Error string | TypeError

section \<open>The selector builder (06-objects-tasks.js)\<close>

subsection \<open>Data\<close>

text \<open>
  \<^verbatim>\<open>getSelectorObject\<close> builds an object literal with the three fields
  \<^verbatim>\<open>selectorName\<close>, \<^verbatim>\<open>symbols\<close> and \<^verbatim>\<open>weight\<close>. The closure
  variables \<^verbatim>\<open>selectors\<close> and \<^verbatim>\<open>currentSelectorWeight\<close> of the constructor
  \<^verbatim>\<open>Selector\<close> are the private state of one chain.
\<close>

record selector_object =
  selectorName :: string
  symbols :: "string list"
  weight :: nat

record Selector =
  selectors :: "selector_object list"
  currentSelectorWeight :: nat

definition new_Selector :: Selector where
  "new_Selector = \<lparr>selectors = [], currentSelectorWeight = 0\<rparr>"

definition unchainableSelecors :: "nat list" where
  "unchainableSelecors = [0, 1, 5]"

definition duplicate_message :: string where
  "duplicate_message =
     ''Element, id and pseudo-element should not occur more then one time inside the selector''"

definition order_message :: string where
  "order_message =
     ''Selector parts should be arranged in the following order: element, id, class, attribute, pseudo-class, pseudo-element''"

subsection \<open>Validation and append\<close>

text \<open>\<^verbatim>\<open>Array.prototype.findIndex\<close>: the first index whose element satisfies the
  predicate, \<open>-1\<close> when there is none.\<close>

fun findIndex :: "('a \<Rightarrow> bool) \<Rightarrow> 'a list \<Rightarrow> int" where
  "findIndex P [] = - 1"
| "findIndex P (x # xs) =
     (if P x then 0
      else (let i = findIndex P xs in if i = - 1 then - 1 else i + 1))"

definition isUnchainableInChain :: "Selector \<Rightarrow> selector_object \<Rightarrow> bool" where
  "isUnchainableInChain s selector \<longleftrightarrow>
     findIndex (\<lambda>selectorWeight. selectorWeight = weight selector) unchainableSelecors \<noteq> - 1
     \<and> findIndex (\<lambda>x. weight x = weight selector) (selectors s) \<noteq> - 1"

text \<open>
  A call that may throw and may assign to the chain's variables returns the outcome
  together with the state the chain is left in: \<open>Inr ()\<close> for a normal return,
  \<open>Inl e\<close> for a throw. Both throws of \<^verbatim>\<open>checkSequence\<close> come before its only
  assignment, and \<^verbatim>\<open>handleSelector\<close> pushes only after \<^verbatim>\<open>checkSequence\<close> has
  returned.
\<close>

type_synonym 'a thrown_or = "error + 'a"

definition checkSequence :: "Selector \<Rightarrow> selector_object \<Rightarrow> unit thrown_or \<times> Selector" where
  "checkSequence s selector =
     (if isUnchainableInChain s selector then (Inl (Error duplicate_message), s)
      else if weight selector < currentSelectorWeight s then (Inl (Error order_message), s)
      else (Inr (), s\<lparr>currentSelectorWeight := weight selector\<rparr>))"

definition handleSelector :: "Selector \<Rightarrow> selector_object \<Rightarrow> unit thrown_or \<times> Selector" where
  "handleSelector s selector =
     (case checkSequence s selector of
        (Inl e, s') \<Rightarrow> (Inl e, s')
      | (Inr u, s') \<Rightarrow> (Inr (), s'\<lparr>selectors := selectors s' @ [selector]\<rparr>))"

subsection \<open>Rendering\<close>

text \<open>\<^verbatim>\<open>symbols[0] || ''\<close>: an index past the end reads \<^verbatim>\<open>undefined\<close>, which
  \<^verbatim>\<open>||\<close> replaces by the empty string (as it does an empty string).\<close>

definition symbol_or_empty :: "string list \<Rightarrow> nat \<Rightarrow> string" where
  "symbol_or_empty syms i = (if i < length syms then syms ! i else [])"

definition getSelectorString :: "selector_object \<Rightarrow> string" where
  "getSelectorString selector =
     (let preceedingSymbol = symbol_or_empty (symbols selector) 0;
          subsequentSymbol = symbol_or_empty (symbols selector) 1
      in preceedingSymbol @ selectorName selector @ subsequentSymbol)"

definition getSelectorObject :: "string \<Rightarrow> string list \<Rightarrow> nat \<Rightarrow> selector_object" where
  "getSelectorObject name syms w = \<lparr>selectorName = name, symbols = syms, weight = w\<rparr>"

definition stringify :: "Selector \<Rightarrow> string" where
  "stringify s = foldl (\<lambda>acc selector. acc @ getSelectorString selector) [] (selectors s)"

subsection \<open>The six chaining methods\<close>

text \<open>Each method returns \<^verbatim>\<open>this\<close>: the handle of the same chain, whose state is the
  second component.\<close>

definition element :: "Selector \<Rightarrow> string \<Rightarrow> unit thrown_or \<times> Selector" where
  "element s tagName = handleSelector s (getSelectorObject tagName [] 0)"

definition id_sel :: "Selector \<Rightarrow> string \<Rightarrow> unit thrown_or \<times> Selector" where
  "id_sel s i = handleSelector s (getSelectorObject i [''#''] 1)"

definition class_sel :: "Selector \<Rightarrow> string \<Rightarrow> unit thrown_or \<times> Selector" where
  "class_sel s className = handleSelector s (getSelectorObject className [''.''] 2)"

definition attr :: "Selector \<Rightarrow> string \<Rightarrow> unit thrown_or \<times> Selector" where
  "attr s attributeName = handleSelector s (getSelectorObject attributeName [''['', '']''] 3)"

definition pseudoClass :: "Selector \<Rightarrow> string \<Rightarrow> unit thrown_or \<times> Selector" where
  "pseudoClass s className = handleSelector s (getSelectorObject className ['':''] 4)"

definition pseudoElement :: "Selector \<Rightarrow> string \<Rightarrow> unit thrown_or \<times> Selector" where
  "pseudoElement s className = handleSelector s (getSelectorObject className [''::''] 5)"

text \<open>
  A fluent expression \<^verbatim>\<open>builder.m1(a1).m2(a2)...\<close> is a list of calls. The first runs
  on \<^verbatim>\<open>new Selector()\<close> (the facade \<^verbatim>\<open>cssSelectorBuilder\<close>), each later one on the
  handle the previous one returned; a throw ends the expression.
\<close>

datatype call =
  Element string | Id string | Class string | Attr string
  | PseudoClass string | PseudoElement string

fun invoke :: "Selector \<Rightarrow> call \<Rightarrow> unit thrown_or \<times> Selector" where
  "invoke s (Element n) = element s n"
| "invoke s (Id n) = id_sel s n"
| "invoke s (Class n) = class_sel s n"
| "invoke s (Attr n) = attr s n"
| "invoke s (PseudoClass n) = pseudoClass s n"
| "invoke s (PseudoElement n) = pseudoElement s n"

fun chain :: "Selector \<Rightarrow> call list \<Rightarrow> unit thrown_or \<times> Selector" where
  "chain s [] = (Inr (), s)"
| "chain s (c # cs) =
     (case invoke s c of
        (Inl e, s') \<Rightarrow> (Inl e, s')
      | (Inr u, s') \<Rightarrow> chain s' cs)"

definition cssSelectorBuilder :: "call list \<Rightarrow> unit thrown_or \<times> Selector" where
  "cssSelectorBuilder cs = chain new_Selector cs"

subsection \<open>Combined selectors\<close>

text \<open>
  \<^verbatim>\<open>combine\<close> accepts any two objects with a \<^verbatim>\<open>stringify\<close> method. The objects
  this module makes are chains and other \<^verbatim>\<open>Combiner\<close> nodes, so an operand is one
  of the two. The template literal puts one space on each side of the combinator.
\<close>

datatype builder_object =
  SelectorObject Selector
  | Combiner (LHselector: builder_object) (combinator: string) (RHselector: builder_object)

fun stringify_object :: "builder_object \<Rightarrow> string" where
  "stringify_object (SelectorObject s) = stringify s"
| "stringify_object (Combiner selector1 comb selector2) =
     stringify_object selector1 @ '' '' @ comb @ '' '' @ stringify_object selector2"

definition combine :: "builder_object \<Rightarrow> string \<Rightarrow> builder_object \<Rightarrow> builder_object" where
  "combine selector1 comb selector2 = Combiner selector1 comb selector2"

subsection \<open>The specification's notions\<close>

text \<open>
  These follow the words of the specification, not the code: the rank of each kind of
  fragment, its rendering as prefix, name and suffix, and what a valid sequence of
  appends is (ranks never decrease; ranks 0, 1 and 5 occur at most once each).
\<close>

fun rank :: "call \<Rightarrow> nat" where
  "rank (Element n) = 0"
| "rank (Id n) = 1"
| "rank (Class n) = 2"
| "rank (Attr n) = 3"
| "rank (PseudoClass n) = 4"
| "rank (PseudoElement n) = 5"

fun rendered :: "call \<Rightarrow> string" where
  "rendered (Element n) = n"
| "rendered (Id n) = ''#'' @ n"
| "rendered (Class n) = ''.'' @ n"
| "rendered (Attr n) = ''['' @ n @ '']''"
| "rendered (PseudoClass n) = '':'' @ n"
| "rendered (PseudoElement n) = ''::'' @ n"

definition valid_sequence :: "call list \<Rightarrow> bool" where
  "valid_sequence cs \<longleftrightarrow>
     sorted (map rank cs) \<and> distinct (filter (\<lambda>r. r \<in> {0, 1, 5}) (map rank cs))"

text \<open>The object each method hands to \<^verbatim>\<open>handleSelector\<close>.\<close>

fun fragment :: "call \<Rightarrow> selector_object" where
  "fragment (Element n) = getSelectorObject n [] 0"
| "fragment (Id n) = getSelectorObject n [''#''] 1"
| "fragment (Class n) = getSelectorObject n [''.''] 2"
| "fragment (Attr n) = getSelectorObject n [''['', '']''] 3"
| "fragment (PseudoClass n) = getSelectorObject n ['':''] 4"
| "fragment (PseudoElement n) = getSelectorObject n [''::''] 5"

section \<open>Serialisation (06-objects-tasks.js)\<close>

text \<open>
  \<^verbatim>\<open>JSON.stringify\<close> and \<^verbatim>\<open>JSON.parse\<close> belong to the JavaScript runtime, not to
  this module, and are parameters here. The value \<^verbatim>\<open>JSON.parse\<close> returns is
  \<^verbatim>\<open>null\<close>, a primitive, or a fresh object (an array is an object whose keys are
  indices) with its own enumerable properties and a prototype.

  \<^verbatim>\<open>Object.setPrototypeOf(obj, proto)\<close> throws a \<^verbatim>\<open>TypeError\<close> when
  \<^verbatim>\<open>obj\<close> is \<^verbatim>\<open>null\<close>, leaves a primitive as it is, and replaces the prototype of
  an object; the own properties stay. The type \<open>'p\<close> holds what a prototype may be
  (an object or \<^verbatim>\<open>null\<close>).
\<close>

datatype ('v, 'p) js_data =
  NullValue
  | Primitive 'v
  | Object (own_properties: "(string \<times> 'v) list") (prototype: 'p)

fun Object_setPrototypeOf :: "('v, 'p) js_data \<Rightarrow> 'p \<Rightarrow> ('v, 'p) js_data thrown_or" where
  "Object_setPrototypeOf NullValue proto = Inl TypeError"
| "Object_setPrototypeOf (Primitive v) proto = Inr (Primitive v)"
| "Object_setPrototypeOf (Object props p) proto = Inr (Object props proto)"

definition getJSON :: "(('v, 'p) js_data \<Rightarrow> string thrown_or) \<Rightarrow> ('v, 'p) js_data \<Rightarrow> string thrown_or"
  where "getJSON JSON_stringify obj = JSON_stringify obj"

definition fromJSON ::
  "(string \<Rightarrow> ('v, 'p) js_data thrown_or) \<Rightarrow> 'p \<Rightarrow> string \<Rightarrow> ('v, 'p) js_data thrown_or" where
  "fromJSON JSON_parse proto json =
     (case JSON_parse json of
        Inl e \<Rightarrow> Inl e
      | Inr obj \<Rightarrow> Object_setPrototypeOf obj proto)"

section \<open>The promise tasks\<close>

subsection \<open>Values and promises\<close>

text \<open>
  The JavaScript values the functions below test for truth: \<^verbatim>\<open>undefined\<close> (also a
  missing argument), \<^verbatim>\<open>null\<close>, booleans, integer numbers and strings.

  A promise is given by how it settles: resolved with a value, rejected with a reason,
  or never settled.
\<close>

datatype js_value = Undefined | Null | Boolean bool | Number int | String string

fun truthy :: "js_value \<Rightarrow> bool" where
  "truthy Undefined = False"
| "truthy Null = False"
| "truthy (Boolean b) = b"
| "truthy (Number n) = (n \<noteq> 0)"
| "truthy (String s) = (s \<noteq> [])"

datatype 'a promise = Resolved 'a | Rejected error | Pending

subsection \<open>willYouMarryMe\<close>

definition willYouMarryMe :: "js_value \<Rightarrow> js_value promise" where
  \<open>willYouMarryMe isPositiveAnswer =
     (if isPositiveAnswer \<noteq> Undefined
      then Resolved (String (if truthy isPositiveAnswer
                             then ''Hooray!!! She said "Yes"!''
                             else ''Oh no, she said "No".''))
      else Rejected (Error ''Wrong parameter is passed! Ask her again.''))\<close>

subsection \<open>chainPromises\<close>

text \<open>
  The callback \<^verbatim>\<open>action\<close> may throw; the \<^verbatim>\<open>.catch\<close> that follows the
  \<^verbatim>\<open>.then\<close> handles a throw of the handler as it handles a rejection of the
  promise.

  \<open>promiseLoop action array a\<close> is the call \<^verbatim>\<open>promiseLoop(a)\<close> with the array in
  the state \<open>array\<close>; it returns how the promise of \<^verbatim>\<open>chainPromises\<close> settles and
  the array as the loop leaves it. The default parameter replaces \<^verbatim>\<open>undefined\<close> by
  \<^verbatim>\<open>null\<close>. \<^verbatim>\<open>array.shift()\<close> removes the head. On an empty array it returns
  \<^verbatim>\<open>undefined\<close>, and \<^verbatim>\<open>.then\<close> on that throws a \<^verbatim>\<open>TypeError\<close>; only the
  first call, made by the executor, can meet an empty array (the later ones test
  \<^verbatim>\<open>array.length\<close> first), and a throw of the executor rejects the promise.
\<close>

type_synonym action = "js_value \<Rightarrow> js_value \<Rightarrow> js_value thrown_or"

fun promiseLoop ::
  "action \<Rightarrow> js_value promise list \<Rightarrow> js_value \<Rightarrow> js_value promise \<times> js_value promise list"
where
  "promiseLoop action [] a = (Rejected TypeError, [])"
| "promiseLoop action (p # array) a =
     (let acc = (if a = Undefined then Null else a) in
      case p of
        Resolved val \<Rightarrow>
          (case (if truthy acc then action acc val else Inr val) of
             Inr newAcc \<Rightarrow>
               (if array \<noteq> [] then promiseLoop action array newAcc
                else (Resolved newAcc, array))
           | Inl e \<Rightarrow>
               (if array \<noteq> [] then promiseLoop action array acc
                else (Resolved acc, array)))
      | Rejected e \<Rightarrow>
          (if array \<noteq> [] then promiseLoop action array acc
           else (Resolved acc, array))
      | Pending \<Rightarrow> (Pending, array))"

definition chainPromises ::
  "js_value promise list \<Rightarrow> action \<Rightarrow> js_value promise \<times> js_value promise list" where
  "chainPromises array action = promiseLoop action array Undefined"

text \<open>A callback for the examples: \<open>f\<close> on two numbers, a throw on anything else.\<close>

definition on_numbers :: "(int \<Rightarrow> int \<Rightarrow> int) \<Rightarrow> action" where
  "on_numbers f a b =
     (case (a, b) of (Number x, Number y) \<Rightarrow> Inr (Number (f x y)) | _ \<Rightarrow> Inl TypeError)"

subsection \<open>processAllPromises\<close>

text \<open>
  Each input promise is given by its state when \<^verbatim>\<open>processAllPromises\<close> is called:
  already fulfilled, already rejected, or still pending. The executor runs at once.
  \<^verbatim>\<open>promise.then(cb)\<close> never runs \<^verbatim>\<open>cb\<close> during the call: on a fulfilled promise it
  queues a job that will call \<^verbatim>\<open>cb\<close> with the value, on a pending promise it only
  registers \<^verbatim>\<open>cb\<close>, and on a rejected promise \<^verbatim>\<open>cb\<close> is never called (no rejection
  handler is given). \<^verbatim>\<open>resolve(acc)\<close> then resolves the returned promise with the
  array, which is still empty.

  The state holds the array \<^verbatim>\<open>acc\<close> and the queued jobs, each one the value its
  callback will push. \<open>processAllPromises\<close> returns the returned promise, with the
  contents of the array at the moment of \<^verbatim>\<open>resolve(acc)\<close>, and the state the executor
  leaves. The caller can attach a reaction to the returned promise only after the call,
  so its reaction runs after the queued jobs and reads the array as \<open>run_jobs\<close> leaves
  it: \<open>delivered\<close>. A value pushed when a pending input is fulfilled later comes after
  that and is not part of the model.
\<close>

record collecting =
  acc_array :: "js_value list"
  jobs :: "js_value list"

definition then_push :: "collecting \<Rightarrow> js_value promise \<Rightarrow> collecting" where
  "then_push st promise =
     (case promise of
        Resolved val \<Rightarrow> st\<lparr>jobs := jobs st @ [val]\<rparr>
      | Rejected e \<Rightarrow> st
      | Pending \<Rightarrow> st)"

definition processAllPromises :: "js_value promise list \<Rightarrow> js_value list promise \<times> collecting" where
  "processAllPromises array =
     (let st = foldl then_push \<lparr>acc_array = [], jobs = []\<rparr> array
      in (Resolved (acc_array st), st))"

definition run_jobs :: "collecting \<Rightarrow> collecting" where
  "run_jobs st =
     \<lparr>acc_array = foldl (\<lambda>a val. a @ [val]) (acc_array st) (jobs st), jobs = []\<rparr>"

definition delivered :: "js_value list promise \<times> collecting \<Rightarrow> js_value list" where
  "delivered r = acc_array (run_jobs (snd r))"

text \<open>In the specification's words: the values of the inputs that have resolved so far,
  in the order of the inputs.\<close>

fun fulfilled_values :: "'a promise list \<Rightarrow> 'a list" where
  "fulfilled_values [] = []"
| "fulfilled_values (Resolved v # ps) = v # fulfilled_values ps"
| "fulfilled_values (Rejected e # ps) = fulfilled_values ps"
| "fulfilled_values (Pending # ps) = fulfilled_values ps"

section \<open>Properties of the selector builder\<close>

subsection \<open>Auxiliary facts\<close>

lemma findIndex_ge: "- 1 \<le> findIndex P xs"
  by (induction xs) (auto simp: Let_def)

lemma findIndex_found: "findIndex P xs \<noteq> - 1 \<longleftrightarrow> (\<exists>x \<in> set xs. P x)"
proof (induction xs)
  case Nil
  show ?case by simp
next
  case (Cons x xs)
  have "- 1 \<le> findIndex P xs" by (rule findIndex_ge)
  with Cons show ?case by (auto simp: Let_def)
qed

lemma isUnchainableInChain_iff:
  "isUnchainableInChain s f \<longleftrightarrow>
     weight f \<in> {0, 1, 5} \<and> (\<exists>g \<in> set (selectors s). weight g = weight f)"
  unfolding isUnchainableInChain_def findIndex_found unchainableSelecors_def by auto

lemma handleSelector_cases:
  "handleSelector s f =
     (if isUnchainableInChain s f then (Inl (Error duplicate_message), s)
      else if weight f < currentSelectorWeight s then (Inl (Error order_message), s)
      else (Inr (), \<lparr>selectors = selectors s @ [f], currentSelectorWeight = weight f\<rparr>))"
  by (simp add: handleSelector_def checkSequence_def)

lemma messages_differ: "duplicate_message \<noteq> order_message"
  by (simp add: duplicate_message_def order_message_def)

lemma handleSelector_throw_keeps: "fst (handleSelector s f) = Inl e \<Longrightarrow> snd (handleSelector s f) = s"
  by (simp add: handleSelector_cases split: if_splits)

lemma invoke_fragment: "invoke s c = handleSelector s (fragment c)"
  by (cases c)
    (simp_all add: element_def id_sel_def class_sel_def attr_def pseudoClass_def pseudoElement_def)

lemma weight_fragment: "weight (fragment c) = rank c"
  by (cases c) (simp_all add: getSelectorObject_def)

lemma getSelectorString_fragment: "getSelectorString (fragment c) = rendered c"
  by (cases c) (simp_all add: getSelectorObject_def getSelectorString_def symbol_or_empty_def)

lemma foldl_append_concat: "foldl (\<lambda>acc x. acc @ f x) a xs = a @ concat (map f xs)"
  by (induction xs arbitrary: a) simp_all

lemma stringify_concat: "stringify s = concat (map getSelectorString (selectors s))"
  by (simp add: stringify_def foldl_append_concat)

lemma chain_selectors:
  "fst (chain s cs) = Inr () \<Longrightarrow> selectors (snd (chain s cs)) = selectors s @ map fragment cs"
proof (induction cs arbitrary: s)
  case Nil
  show ?case by simp
next
  case (Cons c cs)
  show ?case
  proof (cases "invoke s c")
    case (Pair r s')
    show ?thesis
    proof (cases r)
      case (Inl e)
      with Pair Cons.prems show ?thesis by simp
    next
      case (Inr u)
      with Pair Cons.prems have ok: "fst (chain s' cs) = Inr ()" by simp
      from Pair Inr have "selectors s' = selectors s @ [fragment c]"
        by (auto simp: invoke_fragment handleSelector_cases split: if_splits)
      with Cons.IH [OF ok] Pair Inr show ?thesis by simp
    qed
  qed
qed

lemma chain_accepts:
  assumes "sorted (map rank cs)"
    and "distinct (filter (\<lambda>r. r \<in> {0, 1, 5}) (map rank cs))"
    and "\<forall>c \<in> set cs. currentSelectorWeight s \<le> rank c"
    and "\<forall>c \<in> set cs. rank c \<in> {0, 1, 5} \<longrightarrow> rank c \<notin> weight ` set (selectors s)"
  shows "fst (chain s cs) = Inr ()"
  using assms
proof (induction cs arbitrary: s)
  case Nil
  show ?case by simp
next
  case (Cons c cs)
  let ?s' = "\<lparr>selectors = selectors s @ [fragment c], currentSelectorWeight = rank c\<rparr>"
  have "\<not> isUnchainableInChain s (fragment c)"
  proof
    assume "isUnchainableInChain s (fragment c)"
    then have single: "rank c \<in> {0, 1, 5}" and "\<exists>g \<in> set (selectors s). weight g = rank c"
      unfolding isUnchainableInChain_iff weight_fragment by blast+
    then have "rank c \<in> weight ` set (selectors s)" by force
    moreover from Cons.prems(4) single have "rank c \<notin> weight ` set (selectors s)"
      by (meson list.set_intros(1))
    ultimately show False by contradiction
  qed
  moreover from Cons.prems(3) have "\<not> rank c < currentSelectorWeight s" by auto
  ultimately have step: "invoke s c = (Inr (), ?s')"
    by (simp add: invoke_fragment handleSelector_cases weight_fragment)
  have 1: "sorted (map rank cs)" using Cons.prems(1) by simp
  have 2: "distinct (filter (\<lambda>r. r \<in> {0, 1, 5}) (map rank cs))"
    using Cons.prems(2) by (simp split: if_splits)
  have 3: "\<forall>c' \<in> set cs. currentSelectorWeight ?s' \<le> rank c'"
    using Cons.prems(1) by simp
  have 4: "\<forall>c' \<in> set cs. rank c' \<in> {0, 1, 5} \<longrightarrow> rank c' \<notin> weight ` set (selectors ?s')"
  proof (intro ballI impI)
    fix c' assume c': "c' \<in> set cs" and single: "rank c' \<in> {0, 1, 5}"
    from Cons.prems(4) c' single have old: "rank c' \<notin> weight ` set (selectors s)"
      by (meson list.set_intros(2))
    have "rank c' \<noteq> rank c"
    proof
      assume eq: "rank c' = rank c"
      with single have "rank c \<in> {0, 1, 5}" by simp
      with Cons.prems(2) have "rank c \<notin> set (filter (\<lambda>r. r \<in> {0, 1, 5}) (map rank cs))"
        by simp
      moreover from c' have "rank c' \<in> rank ` set cs" by (rule imageI)
      with single eq have "rank c \<in> set (filter (\<lambda>r. r \<in> {0, 1, 5}) (map rank cs))"
        unfolding set_filter set_map by simp
      ultimately show False by contradiction
    qed
    with old show "rank c' \<notin> weight ` set (selectors ?s')"
      by (simp add: weight_fragment)
  qed
  from Cons.IH [OF 1 2 3 4] step show ?case by simp
qed

lemma valid_sequence_accepted: "valid_sequence cs \<Longrightarrow> fst (cssSelectorBuilder cs) = Inr ()"
  unfolding cssSelectorBuilder_def valid_sequence_def
  by (rule chain_accepts) (simp_all add: new_Selector_def)

lemma accepted_stringify:
  "fst (cssSelectorBuilder cs) = Inr () \<Longrightarrow>
     stringify (snd (cssSelectorBuilder cs)) = concat (map rendered cs)"
  unfolding cssSelectorBuilder_def
  by (simp add: stringify_concat chain_selectors new_Selector_def getSelectorString_fragment
      cong: map_cong)

lemmas builder_defs =
  cssSelectorBuilder_def new_Selector_def element_def id_sel_def class_sel_def attr_def
  pseudoClass_def pseudoElement_def handleSelector_def checkSequence_def
  isUnchainableInChain_def unchainableSelecors_def getSelectorObject_def

lemma example_focus_state:
  \<open>cssSelectorBuilder [Element ''a'', Attr ''href$=".png"'', PseudoClass ''focus''] =
     (Inr (), \<lparr>selectors =
        [\<lparr>selectorName = ''a'', symbols = [], weight = 0\<rparr>,
         \<lparr>selectorName = ''href$=".png"'', symbols = [''['', '']''], weight = 3\<rparr>,
         \<lparr>selectorName = ''focus'', symbols = ['':''], weight = 4\<rparr>],
        currentSelectorWeight = 4\<rparr>)\<close>
  by (simp add: builder_defs)

lemma example_element_class_state:
  "cssSelectorBuilder [Element ''a'', Class ''b''] =
     (Inr (), \<lparr>selectors =
        [\<lparr>selectorName = ''a'', symbols = [], weight = 0\<rparr>,
         \<lparr>selectorName = ''b'', symbols = [''.''], weight = 2\<rparr>],
        currentSelectorWeight = 2\<rparr>)"
  by (simp add: builder_defs)

subsection \<open>Rendering of a chain\<close>

text \<open>
  Claim C1. A valid sequence of appends (ranks in non-decreasing order, at most one
  fragment each of ranks 0, 1 and 5) is accepted by the builder, and whenever a
  sequence is accepted, \<^verbatim>\<open>stringify()\<close> is the concatenation, in append order and
  with no separator, of prefix, name and suffix of every fragment. In particular
  \<^verbatim>\<open>element('a').attr('href$=".png"').pseudoClass('focus').stringify()\<close> is
  \<^verbatim>\<open>a[href$=".png"]:focus\<close>.
\<close>

theorem stringify_is_concatenation:
  \<open>(valid_sequence cs \<longrightarrow> fst (cssSelectorBuilder cs) = Inr ())
   \<and> (fst (cssSelectorBuilder cs) = Inr () \<longrightarrow>
        stringify (snd (cssSelectorBuilder cs)) = concat (map rendered cs))
   \<and> stringify (snd (cssSelectorBuilder
          [Element ''a'', Attr ''href$=".png"'', PseudoClass ''focus'']))
       = ''a[href$=".png"]:focus''\<close>
proof (intro conjI impI)
  assume "valid_sequence cs"
  then show "fst (cssSelectorBuilder cs) = Inr ()" by (rule valid_sequence_accepted)
next
  assume "fst (cssSelectorBuilder cs) = Inr ()"
  then show "stringify (snd (cssSelectorBuilder cs)) = concat (map rendered cs)"
    by (rule accepted_stringify)
next
  show \<open>stringify (snd (cssSelectorBuilder
          [Element ''a'', Attr ''href$=".png"'', PseudoClass ''focus'']))
       = ''a[href$=".png"]:focus''\<close>
    unfolding example_focus_state
    by (simp add: stringify_def getSelectorString_def symbol_or_empty_def)
qed

theorem stringify_is_concatenation_witness:
  "valid_sequence [Id ''main'', Class ''container'', Class ''editable'']
   \<and> fst (cssSelectorBuilder [Id ''main'', Class ''container'', Class ''editable'']) = Inr ()
   \<and> stringify (snd (cssSelectorBuilder [Id ''main'', Class ''container'', Class ''editable'']))
       = ''#main.container.editable''"
proof -
  let ?cs = "[Id ''main'', Class ''container'', Class ''editable'']"
  have valid: "valid_sequence ?cs" by (simp add: valid_sequence_def)
  have shown: "concat (map rendered ?cs) = ''#main.container.editable''" by simp
  from stringify_is_concatenation [of ?cs] valid
  have "fst (cssSelectorBuilder ?cs) = Inr ()"
    and "stringify (snd (cssSelectorBuilder ?cs)) = concat (map rendered ?cs)"
    by blast+
  with valid shown show ?thesis by simp
qed

subsection \<open>Validation errors\<close>

text \<open>
  Claim C2. Appending a fragment of rank 0, 1 or 5 (element, id, pseudo-element) to a
  chain that already holds a fragment of that rank throws the error
  \<^verbatim>\<open>Element, id and pseudo-element should not occur more then one time inside the selector\<close>,
  whatever else the chain holds and wherever its cursor stands: the duplicate check
  comes before the ordering check, so the ordering error is not the one thrown even
  when the rank is below the cursor.
\<close>

theorem duplicate_singleton_throws:
  assumes "weight f \<in> {0, 1, 5}"
    and "\<exists>g \<in> set (selectors s). weight g = weight f"
  shows "fst (handleSelector s f) =
           Inl (Error ''Element, id and pseudo-element should not occur more then one time inside the selector'')
         \<and> fst (handleSelector s f) \<noteq>
           Inl (Error ''Selector parts should be arranged in the following order: element, id, class, attribute, pseudo-class, pseudo-element'')"
proof -
  from assms have "isUnchainableInChain s f" by (simp only: isUnchainableInChain_iff simp_thms)
  then have "fst (handleSelector s f) = Inl (Error duplicate_message)"
    by (simp add: handleSelector_cases)
  then show ?thesis by (simp add: duplicate_message_def)
qed

theorem duplicate_singleton_throws_witness:
  "weight (getSelectorObject ''c'' [] 0) \<in> {0, 1, 5}
   \<and> (\<exists>g \<in> set (selectors (snd (cssSelectorBuilder [Element ''a'', Class ''b'']))).
         weight g = weight (getSelectorObject ''c'' [] 0))
   \<and> weight (getSelectorObject ''c'' [] 0)
       < currentSelectorWeight (snd (cssSelectorBuilder [Element ''a'', Class ''b'']))
   \<and> fst (handleSelector (snd (cssSelectorBuilder [Element ''a'', Class ''b'']))
            (getSelectorObject ''c'' [] 0)) =
       Inl (Error ''Element, id and pseudo-element should not occur more then one time inside the selector'')"
proof -
  let ?s = "snd (cssSelectorBuilder [Element ''a'', Class ''b''])"
  let ?f = "getSelectorObject ''c'' [] 0"
  have single: "weight ?f \<in> {0, 1, 5}" by (simp add: getSelectorObject_def)
  have present: "\<exists>g \<in> set (selectors ?s). weight g = weight ?f"
    unfolding example_element_class_state by (simp add: getSelectorObject_def)
  have below: "weight ?f < currentSelectorWeight ?s"
    unfolding example_element_class_state by (simp add: getSelectorObject_def)
  from duplicate_singleton_throws [OF single present] single present below
  show ?thesis by blast
qed

text \<open>
  Claim C3, as amended. Appending a fragment whose rank is strictly below the chain's
  cursor throws the error
  \<^verbatim>\<open>Selector parts should be arranged in the following order: element, id, class, attribute, pseudo-class, pseudo-element\<close>,
  unless the fragment repeats an element, id or pseudo-element already in the chain
  (then the duplicate error is thrown instead). A fragment whose rank equals the cursor
  never fails with the ordering error, and every successful append sets the cursor to
  the rank of the appended fragment.
\<close>

theorem out_of_order_throws:
  "(weight f < currentSelectorWeight s
      \<and> \<not> (weight f \<in> {0, 1, 5} \<and> (\<exists>g \<in> set (selectors s). weight g = weight f))
    \<longrightarrow> fst (handleSelector s f) =
          Inl (Error ''Selector parts should be arranged in the following order: element, id, class, attribute, pseudo-class, pseudo-element''))
   \<and> (weight f = currentSelectorWeight s
    \<longrightarrow> fst (handleSelector s f) \<noteq>
          Inl (Error ''Selector parts should be arranged in the following order: element, id, class, attribute, pseudo-class, pseudo-element''))
   \<and> (fst (handleSelector s f) = Inr ()
    \<longrightarrow> currentSelectorWeight (snd (handleSelector s f)) = weight f)"
proof (intro conjI impI)
  assume "weight f < currentSelectorWeight s
      \<and> \<not> (weight f \<in> {0, 1, 5} \<and> (\<exists>g \<in> set (selectors s). weight g = weight f))"
  then have "weight f < currentSelectorWeight s" and "\<not> isUnchainableInChain s f"
    by (simp_all only: isUnchainableInChain_iff simp_thms)
  then have "fst (handleSelector s f) = Inl (Error order_message)"
    by (simp add: handleSelector_cases)
  then show "fst (handleSelector s f) =
          Inl (Error ''Selector parts should be arranged in the following order: element, id, class, attribute, pseudo-class, pseudo-element'')"
    by (simp add: order_message_def)
next
  assume "weight f = currentSelectorWeight s"
  then have "fst (handleSelector s f) \<noteq> Inl (Error order_message)"
    using messages_differ by (simp add: handleSelector_cases)
  then show "fst (handleSelector s f) \<noteq>
          Inl (Error ''Selector parts should be arranged in the following order: element, id, class, attribute, pseudo-class, pseudo-element'')"
    by (simp add: order_message_def)
next
  assume "fst (handleSelector s f) = Inr ()"
  then show "currentSelectorWeight (snd (handleSelector s f)) = weight f"
    by (simp add: handleSelector_cases split: if_splits)
qed

theorem out_of_order_throws_witness:
  "weight (getSelectorObject ''i'' [''#''] 1)
       < currentSelectorWeight (snd (cssSelectorBuilder [Element ''a'', Class ''b'']))
   \<and> fst (handleSelector (snd (cssSelectorBuilder [Element ''a'', Class ''b'']))
            (getSelectorObject ''i'' [''#''] 1)) =
       Inl (Error ''Selector parts should be arranged in the following order: element, id, class, attribute, pseudo-class, pseudo-element'')
   \<and> weight (getSelectorObject ''d'' [''.''] 2)
       = currentSelectorWeight (snd (cssSelectorBuilder [Element ''a'', Class ''b'']))
   \<and> fst (handleSelector (snd (cssSelectorBuilder [Element ''a'', Class ''b'']))
            (getSelectorObject ''d'' [''.''] 2)) = Inr ()
   \<and> currentSelectorWeight
        (snd (handleSelector (snd (cssSelectorBuilder [Element ''a'', Class ''b'']))
               (getSelectorObject ''d'' [''.''] 2))) = 2"
proof -
  let ?s = "snd (cssSelectorBuilder [Element ''a'', Class ''b''])"
  let ?i = "getSelectorObject ''i'' [''#''] 1"
  let ?d = "getSelectorObject ''d'' [''.''] 2"
  have below: "weight ?i < currentSelectorWeight ?s"
    unfolding example_element_class_state by (simp add: getSelectorObject_def)
  have fresh: "\<not> (weight ?i \<in> {0, 1, 5} \<and> (\<exists>g \<in> set (selectors ?s). weight g = weight ?i))"
    unfolding example_element_class_state by (simp add: getSelectorObject_def)
  have equal: "weight ?d = currentSelectorWeight ?s"
    unfolding example_element_class_state by (simp add: getSelectorObject_def)
  have accepted: "fst (handleSelector ?s ?d) = Inr ()"
    unfolding example_element_class_state
    by (simp add: handleSelector_def checkSequence_def isUnchainableInChain_def
        unchainableSelecors_def getSelectorObject_def)
  have two: "weight ?d = 2" by (simp add: getSelectorObject_def)
  from out_of_order_throws [of ?i ?s] below fresh
  have first: "fst (handleSelector ?s ?i) =
       Inl (Error ''Selector parts should be arranged in the following order: element, id, class, attribute, pseudo-class, pseudo-element'')"
    by blast
  from out_of_order_throws [of ?d ?s] accepted
  have "currentSelectorWeight (snd (handleSelector ?s ?d)) = weight ?d" by blast
  with two have last: "currentSelectorWeight (snd (handleSelector ?s ?d)) = 2" by simp
  from below first equal accepted last show ?thesis by blast
qed

text \<open>
  Claim C3 as stated fails: after \<^verbatim>\<open>element('a').class('b')\<close> the cursor is 2, a
  second \<^verbatim>\<open>element('c')\<close> has rank 0, below the cursor, and the error thrown is the
  duplicate error, not the ordering error.
\<close>

theorem out_of_order_counterexample:
  "weight (getSelectorObject ''c'' [] 0)
       < currentSelectorWeight (snd (cssSelectorBuilder [Element ''a'', Class ''b'']))
   \<and> fst (element (snd (cssSelectorBuilder [Element ''a'', Class ''b''])) ''c'') =
       Inl (Error ''Element, id and pseudo-element should not occur more then one time inside the selector'')
   \<and> fst (element (snd (cssSelectorBuilder [Element ''a'', Class ''b''])) ''c'') \<noteq>
       Inl (Error ''Selector parts should be arranged in the following order: element, id, class, attribute, pseudo-class, pseudo-element'')"
  unfolding example_element_class_state
  by (simp add: element_def handleSelector_def checkSequence_def isUnchainableInChain_def
      unchainableSelecors_def getSelectorObject_def duplicate_message_def)

text \<open>
  Claim C5. When an append throws, nothing has been assigned: the list of fragments
  and the cursor are what they were before the call. So the chain renders as before,
  and it accepts or rejects every later sequence of appends exactly as it would have
  done without the failed call.
\<close>

theorem failed_append_changes_nothing:
  assumes "fst (handleSelector s f) = Inl e"
  shows "selectors (snd (handleSelector s f)) = selectors s
         \<and> currentSelectorWeight (snd (handleSelector s f)) = currentSelectorWeight s
         \<and> snd (handleSelector s f) = s
         \<and> handleSelector (snd (handleSelector s f)) g = handleSelector s g
         \<and> chain (snd (handleSelector s f)) cs = chain s cs
         \<and> stringify (snd (handleSelector s f)) = stringify s
         \<and> (e = Error duplicate_message \<or> e = Error order_message)"
proof -
  from assms have same: "snd (handleSelector s f) = s" by (rule handleSelector_throw_keeps)
  from assms have "e = Error duplicate_message \<or> e = Error order_message"
    by (auto simp: handleSelector_cases split: if_splits)
  with same show ?thesis by simp
qed

theorem failed_append_changes_nothing_witness:
  "fst (handleSelector (snd (cssSelectorBuilder [Element ''a'', Class ''b'']))
          (getSelectorObject ''i'' [''#''] 1)) = Inl (Error order_message)
   \<and> snd (handleSelector (snd (cssSelectorBuilder [Element ''a'', Class ''b'']))
          (getSelectorObject ''i'' [''#''] 1))
       = snd (cssSelectorBuilder [Element ''a'', Class ''b''])
   \<and> fst (handleSelector (snd (cssSelectorBuilder [Element ''a'', Class ''b'']))
          (getSelectorObject ''c'' [] 0)) = Inl (Error duplicate_message)
   \<and> snd (handleSelector (snd (cssSelectorBuilder [Element ''a'', Class ''b'']))
          (getSelectorObject ''c'' [] 0))
       = snd (cssSelectorBuilder [Element ''a'', Class ''b''])"
proof -
  let ?s = "snd (cssSelectorBuilder [Element ''a'', Class ''b''])"
  have order: "fst (handleSelector ?s (getSelectorObject ''i'' [''#''] 1)) = Inl (Error order_message)"
    unfolding example_element_class_state
    by (simp add: handleSelector_def checkSequence_def isUnchainableInChain_def
        unchainableSelecors_def getSelectorObject_def)
  have dup: "fst (handleSelector ?s (getSelectorObject ''c'' [] 0)) = Inl (Error duplicate_message)"
    unfolding example_element_class_state
    by (simp add: handleSelector_def checkSequence_def isUnchainableInChain_def
        unchainableSelecors_def getSelectorObject_def)
  from failed_append_changes_nothing [OF order] failed_append_changes_nothing [OF dup] order dup
  show ?thesis by blast
qed

subsection \<open>Combined selectors\<close>

text \<open>
  Claim C4. \<^verbatim>\<open>combine(A, sym, B).stringify()\<close> is \<^verbatim>\<open>A.stringify()\<close>, a space, the
  combinator, a space, \<^verbatim>\<open>B.stringify()\<close>, whatever the combinator is. With the
  descendant combinator (a single space) the two added spaces stand on both sides of it,
  so the operands are three spaces apart. The specification's example
  \<^verbatim>\<open>combine(element('div').id('main'), '+', element('table').id('data'))\<close> renders
  as \<^verbatim>\<open>div#main + table#data\<close>.
\<close>

theorem combine_stringify:
  "stringify_object (combine A comb B) =
       stringify_object A @ '' '' @ comb @ '' '' @ stringify_object B
   \<and> stringify_object (combine A '' '' B) = stringify_object A @ ''   '' @ stringify_object B
   \<and> stringify_object
        (combine (SelectorObject (snd (cssSelectorBuilder [Element ''div'', Id ''main''])))
           ''+''
           (SelectorObject (snd (cssSelectorBuilder [Element ''table'', Id ''data'']))))
       = ''div#main + table#data''"
proof (intro conjI)
  show "stringify_object (combine A comb B) =
       stringify_object A @ '' '' @ comb @ '' '' @ stringify_object B"
    by (simp add: combine_def)
  show "stringify_object (combine A '' '' B) = stringify_object A @ ''   '' @ stringify_object B"
    by (simp add: combine_def)
  have left: "fst (cssSelectorBuilder [Element ''div'', Id ''main'']) = Inr ()"
    by (rule valid_sequence_accepted) (simp add: valid_sequence_def)
  have right: "fst (cssSelectorBuilder [Element ''table'', Id ''data'']) = Inr ()"
    by (rule valid_sequence_accepted) (simp add: valid_sequence_def)
  show "stringify_object
        (combine (SelectorObject (snd (cssSelectorBuilder [Element ''div'', Id ''main''])))
           ''+''
           (SelectorObject (snd (cssSelectorBuilder [Element ''table'', Id ''data'']))))
       = ''div#main + table#data''"
    by (simp add: combine_def accepted_stringify [OF left] accepted_stringify [OF right])
qed

section \<open>Properties of the serialisation functions\<close>

text \<open>
  Claim C9. Let \<^verbatim>\<open>obj\<close> be an object that the runtime's \<^verbatim>\<open>JSON.stringify\<close> turns
  into a text from which the runtime's \<^verbatim>\<open>JSON.parse\<close> builds an object with the
  same own enumerable properties (this is what JSON-serializable plain data means here).
  Then for every prototype \<^verbatim>\<open>proto\<close>, \<^verbatim>\<open>fromJSON(proto, getJSON(obj))\<close> returns
  an object with the own properties of \<^verbatim>\<open>obj\<close> and the prototype \<^verbatim>\<open>proto\<close>.
\<close>

theorem fromJSON_getJSON:
  assumes "JSON_stringify (Object props p) = Inr json"
    and "JSON_parse json = Inr (Object props p0)"
  shows "getJSON JSON_stringify (Object props p) = Inr json
         \<and> fromJSON JSON_parse proto json = Inr (Object props proto)
         \<and> (\<exists>obj. fromJSON JSON_parse proto json = Inr obj
                \<and> own_properties obj = props \<and> prototype obj = proto)"
  using assms by (simp add: getJSON_def fromJSON_def)

theorem fromJSON_getJSON_witness:
  \<open>fromJSON
     (\<lambda>t. if t = ''{"radius":10}''
          then Inr (Object [(''radius'', 10 :: int)] ''Object.prototype'')
          else Inl (Error ''SyntaxError''))
     ''Circle.prototype''
     ''{"radius":10}''
   = Inr (Object [(''radius'', 10 :: int)] ''Circle.prototype'')\<close>
proof -
  let ?stringify = \<open>\<lambda>x :: (int, string) js_data. (Inr ''{"radius":10}'' :: string thrown_or)\<close>
  let ?parse = \<open>\<lambda>t. if t = ''{"radius":10}''
          then Inr (Object [(''radius'', 10 :: int)] ''Object.prototype'')
          else (Inl (Error ''SyntaxError'') :: (int, string) js_data thrown_or)\<close>
  have written: \<open>?stringify (Object [(''radius'', 10)] ''Object.prototype'') = Inr ''{"radius":10}''\<close>
    by simp
  have parsed: \<open>?parse ''{"radius":10}'' = Inr (Object [(''radius'', 10)] ''Object.prototype'')\<close>
    by simp
  from fromJSON_getJSON [of ?stringify _ _ _ ?parse, OF written parsed]
  show ?thesis by blast
qed

section \<open>Properties of the promise functions\<close>

subsection \<open>Auxiliary facts\<close>

lemma promiseLoop_array:
  "snd (promiseLoop action array a) = tl (dropWhile (\<lambda>p. p \<noteq> Pending) array)"
proof (induction array arbitrary: a)
  case Nil
  show ?case by simp
next
  case (Cons p array)
  show ?case
    by (cases "array = []") (simp_all add: Let_def Cons.IH split: sum.split promise.split)
qed

lemma promiseLoop_settles:
  "array \<noteq> [] \<Longrightarrow> \<forall>p \<in> set array. p \<noteq> Pending \<Longrightarrow>
     \<exists>v. fst (promiseLoop action array a) = Resolved v"
proof (induction array arbitrary: a)
  case Nil
  then show ?case by simp
next
  case (Cons p array)
  show ?case
  proof (cases "array = []")
    case True
    with Cons.prems show ?thesis by (simp add: Let_def split: sum.split promise.split)
  next
    case False
    with Cons.prems have "\<And>b. \<exists>v. fst (promiseLoop action array b) = Resolved v"
      by (intro Cons.IH) simp_all
    with False Cons.prems show ?thesis
      by (simp add: Let_def split: sum.split promise.split)
  qed
qed

lemma promiseLoop_pending:
  "fst (promiseLoop action array a) = Pending \<longleftrightarrow> Pending \<in> set array"
proof (induction array arbitrary: a)
  case Nil
  show ?case by simp
next
  case (Cons p array)
  show ?case
    by (cases "array = []") (auto simp add: Let_def Cons.IH split: sum.split promise.split)
qed

lemma dropWhile_all: "\<forall>x \<in> set xs. P x \<Longrightarrow> dropWhile P xs = []"
  by (induction xs) simp_all

subsection \<open>willYouMarryMe\<close>

text \<open>
  Claim C6. \<^verbatim>\<open>willYouMarryMe(true)\<close> resolves with \<^verbatim>\<open>Hooray!!! She said "Yes"!\<close>,
  \<^verbatim>\<open>willYouMarryMe(false)\<close> resolves with \<^verbatim>\<open>Oh no, she said "No".\<close>, and
  \<^verbatim>\<open>willYouMarryMe()\<close> rejects with the error
  \<^verbatim>\<open>Wrong parameter is passed! Ask her again.\<close>. An argument that is neither a boolean
  nor \<^verbatim>\<open>undefined\<close> does not reject, though: \<^verbatim>\<open>null\<close> resolves with the message
  for \<^verbatim>\<open>false\<close>, a non-empty string with the message for \<^verbatim>\<open>true\<close>.
\<close>

theorem willYouMarryMe_outcomes:
  \<open>willYouMarryMe (Boolean True) = Resolved (String ''Hooray!!! She said "Yes"!'')
   \<and> willYouMarryMe (Boolean False) = Resolved (String ''Oh no, she said "No".'')
   \<and> willYouMarryMe Undefined = Rejected (Error ''Wrong parameter is passed! Ask her again.'')
   \<and> willYouMarryMe Null = Resolved (String ''Oh no, she said "No".'')
   \<and> willYouMarryMe (String ''maybe'') = Resolved (String ''Hooray!!! She said "Yes"!'')\<close>
  by (simp add: willYouMarryMe_def)

subsection \<open>chainPromises\<close>

text \<open>
  Claim C7. Over promises resolving with 1, 2, 3 and addition, \<^verbatim>\<open>chainPromises\<close>
  resolves with 6, and a rejected promise is skipped. The accumulator is tested for
  truth, not for being seeded, so a falsy accumulator is replaced by the next value
  instead of being combined with it: over promises resolving with 0 and 5 and
  multiplication the result is 5, where combining gives 0.
\<close>

theorem chainPromises_examples:
  "fst (chainPromises [Resolved (Number 1), Resolved (Number 2), Resolved (Number 3)]
          (on_numbers (+))) = Resolved (Number 6)
   \<and> fst (chainPromises [Resolved (Number 1), Rejected (Error ''failed''), Resolved (Number 3)]
          (on_numbers (+))) = Resolved (Number 4)
   \<and> fst (chainPromises [Resolved (Number 0), Resolved (Number 5)] (on_numbers (*)))
        = Resolved (Number 5)
   \<and> on_numbers (*) (Number 0) (Number 5) = Inr (Number 0)"
  by (simp add: chainPromises_def on_numbers_def)

text \<open>
  Claim C10. Every step of \<^verbatim>\<open>chainPromises\<close> shifts the head off the caller's
  array: the array is left without everything up to and including the first promise
  that never settles. So for a non-empty array, once the returned promise has settled
  the array is empty; and it does settle, with the array emptied, when every promise
  in the array settles.
\<close>

theorem chainPromises_empties_array:
  "snd (chainPromises array action) = tl (dropWhile (\<lambda>p. p \<noteq> Pending) array)
   \<and> (array \<noteq> [] \<and> fst (chainPromises array action) \<noteq> Pending
        \<longrightarrow> snd (chainPromises array action) = [])
   \<and> (array \<noteq> [] \<and> (\<forall>p \<in> set array. p \<noteq> Pending)
        \<longrightarrow> (\<exists>v. fst (chainPromises array action) = Resolved v)
            \<and> snd (chainPromises array action) = [])"
proof -
  have left: "snd (chainPromises array action) = tl (dropWhile (\<lambda>p. p \<noteq> Pending) array)"
    by (simp add: chainPromises_def promiseLoop_array)
  have empty: "snd (chainPromises array action) = []" if "\<forall>p \<in> set array. p \<noteq> Pending"
    using that by (simp add: left dropWhile_all)
  have settled: "\<forall>p \<in> set array. p \<noteq> Pending" if "fst (chainPromises array action) \<noteq> Pending"
    using that by (auto simp: chainPromises_def promiseLoop_pending)
  have resolves: "\<exists>v. fst (chainPromises array action) = Resolved v"
    if "array \<noteq> []" and "\<forall>p \<in> set array. p \<noteq> Pending"
    using that unfolding chainPromises_def by (rule promiseLoop_settles)
  from left empty settled resolves show ?thesis by blast
qed

theorem chainPromises_empties_array_witness:
  "[Resolved (Number 1), Rejected (Error ''failed''), Resolved (Number 3)] \<noteq> []
   \<and> Pending \<notin> set [Resolved (Number 1), Rejected (Error ''failed''), Resolved (Number 3)]
   \<and> fst (chainPromises [Resolved (Number 1), Rejected (Error ''failed''), Resolved (Number 3)]
          (on_numbers (+))) \<noteq> Pending
   \<and> snd (chainPromises [Resolved (Number 1), Rejected (Error ''failed''), Resolved (Number 3)]
          (on_numbers (+))) = []"
proof -
  let ?array = "[Resolved (Number 1), Rejected (Error ''failed''), Resolved (Number 3)]"
  have nonempty: "?array \<noteq> []" by simp
  have settle: "\<forall>p \<in> set ?array. p \<noteq> Pending" by simp
  from chainPromises_empties_array [of ?array "on_numbers (+)"] nonempty settle
  have "\<exists>v. fst (chainPromises ?array (on_numbers (+))) = Resolved v"
    and "snd (chainPromises ?array (on_numbers (+))) = []"
    by blast+
  then have "fst (chainPromises ?array (on_numbers (+))) \<noteq> Pending"
    and "snd (chainPromises ?array (on_numbers (+))) = []"
    by auto
  moreover have "Pending \<notin> set ?array" by simp
  ultimately show ?thesis using nonempty by blast
qed

subsection \<open>processAllPromises\<close>

lemma then_push_cases:
  "then_push st (Resolved v) = st\<lparr>jobs := jobs st @ [v]\<rparr>"
  "then_push st (Rejected e) = st"
  "then_push st Pending = st"
  by (simp_all add: then_push_def)

lemma foldl_then_push:
  "foldl then_push st array =
     \<lparr>acc_array = acc_array st, jobs = jobs st @ fulfilled_values array\<rparr>"
proof (induction array arbitrary: st)
  case Nil
  show ?case by simp
next
  case (Cons p array)
  show ?case by (cases p) (simp_all add: Cons.IH then_push_cases)
qed

lemma foldl_snoc: "foldl (\<lambda>a val. a @ [val]) xs ys = xs @ ys"
  by (induction ys arbitrary: xs) simp_all

lemma fulfilled_values_all:
  "\<forall>p \<in> set array. \<exists>v. p = Resolved v \<Longrightarrow> map Resolved (fulfilled_values array) = array"
  by (induction array) auto

text \<open>
  Claim C8. \<^verbatim>\<open>processAllPromises(array)\<close> returns a promise that is resolved at
  once, whatever the state of the inputs: when \<^verbatim>\<open>resolve(acc)\<close> is called the array
  is still empty, and what the caller's reaction receives are the values of the inputs
  already fulfilled at the call, in the order of the inputs. Inputs still pending (or
  rejected) are not waited for and contribute nothing. When every input is already
  fulfilled, the caller receives the sequence of all the inputs' values.
\<close>

theorem processAllPromises_resolves_at_once:
  "fst (processAllPromises array) = Resolved []
   \<and> delivered (processAllPromises array) = fulfilled_values array
   \<and> ((\<forall>p \<in> set array. \<exists>v. p = Resolved v)
        \<longrightarrow> map Resolved (delivered (processAllPromises array)) = array)
   \<and> fst (processAllPromises [Resolved (Number 1), Pending, Resolved (Number 12)]) = Resolved []
   \<and> delivered (processAllPromises [Resolved (Number 1), Pending, Resolved (Number 12)])
       = [Number 1, Number 12]"
proof -
  have now: "fst (processAllPromises array) = Resolved []" for array
    by (simp add: processAllPromises_def foldl_then_push)
  have later: "delivered (processAllPromises array) = fulfilled_values array" for array
    by (simp add: delivered_def run_jobs_def processAllPromises_def foldl_then_push foldl_snoc)
  have every: "map Resolved (delivered (processAllPromises array)) = array"
    if "\<forall>p \<in> set array. \<exists>v. p = Resolved v"
    using that by (simp add: later fulfilled_values_all)
  have example:
    "delivered (processAllPromises [Resolved (Number 1), Pending, Resolved (Number 12)])
       = [Number 1, Number 12]"
    by (simp add: later)
  from now later every example show ?thesis by blast
qed

theorem processAllPromises_resolves_at_once_witness:
  "fst (processAllPromises [Resolved (Number 1), Resolved (Number 3), Resolved (Number 12)])
       = Resolved []
   \<and> delivered (processAllPromises [Resolved (Number 1), Resolved (Number 3), Resolved (Number 12)])
       = [Number 1, Number 3, Number 12]"
proof -
  let ?array = "[Resolved (Number 1), Resolved (Number 3), Resolved (Number 12)]"
  have fulfilled: "\<forall>p \<in> set ?array. \<exists>v. p = Resolved v" by simp
  from processAllPromises_resolves_at_once [of ?array] fulfilled
  have now: "fst (processAllPromises ?array) = Resolved []"
    and every: "map Resolved (delivered (processAllPromises ?array)) = ?array"
    by blast+
  have "map Resolved [Number 1, Number 3, Number 12] = ?array" by simp
  with every have "map Resolved (delivered (processAllPromises ?array))
      = map Resolved [Number 1, Number 3, Number 12]"
    by simp
  moreover have "inj (Resolved :: js_value \<Rightarrow> js_value promise)" by (simp add: inj_def)
  ultimately have "delivered (processAllPromises ?array) = [Number 1, Number 3, Number 12]"
    by (rule map_injective)
  with now show ?thesis by blast
qed

end
